theory Spec2Isabelle
  imports Main "HOL-Library.Monad_Syntax"
begin

section \<open>JavaScript built-ins the parser relies on\<close>

text \<open>
  The parser (\<^verbatim>\<open>src/src/parser.ts\<close>) is a class of static, pure functions over
  JavaScript strings, numbers and \<^verbatim>\<open>Date\<close> objects.  A string is modelled as
  the list of its code units, for strings whose code units are below 256
  (\<^typ>\<open>string\<close>); a number that holds an integer as an \<^typ>\<open>int\<close> (exact; a
  JavaScript number agrees with it up to \<open>2^53\<close>); \<^verbatim>\<open>undefined\<close> and
  \<^verbatim>\<open>null\<close> as \<^const>\<open>None\<close>.
\<close>

abbreviation TAB :: char where "TAB \<equiv> CHR 0x09"
abbreviation LF :: char where "LF \<equiv> CHR 0x0A"

text \<open>The white space and line terminators of ECMAScript that fit in one byte.\<close>

definition is_ws :: "char \<Rightarrow> bool" where
  "is_ws c = (c \<in> set [CHR 0x09, CHR 0x0A, CHR 0x0B, CHR 0x0C, CHR 0x0D, CHR 0x20, CHR 0xA0])"

text \<open>\<^verbatim>\<open>String.prototype.trim\<close>.\<close>

definition trim :: "string \<Rightarrow> string" where
  "trim s = rev (dropWhile is_ws (rev (dropWhile is_ws s)))"

text \<open>
  \<^verbatim>\<open>s.split(sep)\<close> for a one-character separator: the result is never empty, and the
  empty string splits into one empty field.
\<close>

fun split_on :: "char \<Rightarrow> string \<Rightarrow> string list" where
  "split_on sep [] = [[]]"
| "split_on sep (c # cs) =
     (if c = sep then [] # split_on sep cs
      else (case split_on sep cs of
              f # fs \<Rightarrow> (c # f) # fs
            | [] \<Rightarrow> [[c]]))"

text \<open>\<^verbatim>\<open>xs[i]\<close>: reading past the end of an array gives \<^verbatim>\<open>undefined\<close>.\<close>

definition nth_opt :: "'a list \<Rightarrow> nat \<Rightarrow> 'a option" where
  "nth_opt xs i = (if i < length xs then Some (xs ! i) else None)"

text \<open>
  Truthiness of an optional string: \<^verbatim>\<open>undefined\<close> and \<^verbatim>\<open>""\<close> are falsy.
  \<open>truthy v\<close> keeps the value when \<^verbatim>\<open>if (v)\<close> would take the branch.
\<close>

definition truthy :: "string option \<Rightarrow> string option" where
  "truthy v = (case v of None \<Rightarrow> None | Some s \<Rightarrow> if s = [] then None else Some s)"

text \<open>\<^verbatim>\<open>xs.join(sep)\<close>.\<close>

fun js_join :: "string \<Rightarrow> string list \<Rightarrow> string" where
  "js_join sep [] = []"
| "js_join sep [x] = x"
| "js_join sep (x # y # ys) = x @ sep @ js_join sep (y # ys)"

text \<open>A non-negative integer in a template literal: its decimal digits.\<close>

fun show_nat :: "nat \<Rightarrow> string" where
  "show_nat n =
     (if n < 10 then [''0123456789'' ! n]
      else show_nat (n div 10) @ [''0123456789'' ! (n mod 10)])"

declare show_nat.simps [simp del]

text \<open>An optional string in a template literal.\<close>

definition show_opt :: "string option \<Rightarrow> string" where
  "show_opt v = (case v of None \<Rightarrow> ''undefined'' | Some s \<Rightarrow> s)"

definition is_digit :: "char \<Rightarrow> bool" where
  "is_digit c = (c \<in> set ''0123456789'')"

definition digit_val :: "char \<Rightarrow> int" where
  "digit_val c = of_char c - 48"

definition digits_val :: "string \<Rightarrow> int" where
  "digits_val ds = foldl (\<lambda>acc c. acc * 10 + digit_val c) 0 ds"

text \<open>
  \<^verbatim>\<open>Number.parseInt(s, 10)\<close>: leading white space is skipped, one sign is read, then
  the longest run of decimal digits; \<^verbatim>\<open>NaN\<close> (here \<^const>\<open>None\<close>) when there is no
  digit.  Whatever follows the digits is ignored.
\<close>

definition js_parseInt :: "string \<Rightarrow> int option" where
  "js_parseInt s =
     (let s1 = dropWhile is_ws s;
          neg = (case s1 of c # _ \<Rightarrow> c = CHR ''-'' | [] \<Rightarrow> False);
          s2 = (case s1 of
                  c # r \<Rightarrow> if c = CHR ''+'' \<or> c = CHR ''-'' then r else s1
                | [] \<Rightarrow> s1);
          ds = takeWhile is_digit s2
      in if ds = [] then None
         else Some (if neg then - digits_val ds else digits_val ds))"

subsection \<open>Dates\<close>

text \<open>
  A \<^verbatim>\<open>Date\<close> object holds a time value: milliseconds since the epoch, or
  \<^verbatim>\<open>NaN\<close> for an invalid date.
\<close>

datatype Date = Date (getTime: "int option")

text \<open>\<^verbatim>\<open>new Date(t)\<close> for a number: the time value is clipped to 100 million days.\<close>

definition new_Date_value :: "int \<Rightarrow> Date" where
  "new_Date_value t = (if \<bar>t\<bar> \<le> 8640000000000000 then Date (Some t) else Date None)"

text \<open>
  What a date string denotes before the process's time zone comes in: nothing, a wall
  clock reading to be taken in the local zone, or an instant.  Both carry milliseconds
  (the wall clock reading as if it were UTC).
\<close>

datatype parsed_time = Unrecognised | LocalTime int | UtcTime int

text \<open>
  The environment of the executing process: the value of
  \<^verbatim>\<open>getTimezoneOffset()\<close> (UTC minus local time, in minutes; one fixed offset, so
  no daylight-saving change), and what the engine's \<^verbatim>\<open>Date\<close> parser makes of a
  string outside the ECMAScript date-time format, which the language leaves to the
  implementation.
\<close>

record runtime =
  localOffsetMin :: int
  fallbackParse :: "string \<Rightarrow> parsed_time"

definition is_leap :: "int \<Rightarrow> bool" where
  "is_leap y = (if y mod 100 = 0 then y mod 400 = 0 else y mod 4 = 0)"

definition days_in_month :: "int \<Rightarrow> int \<Rightarrow> int" where
  "days_in_month y m =
     (if m = 2 then (if is_leap y then 29 else 28)
      else if m = 4 \<or> m = 6 \<or> m = 9 \<or> m = 11 then 30 else 31)"

text \<open>Days from 1970-01-01 to the given day of the proleptic Gregorian calendar.\<close>

definition days_from_civil :: "int \<Rightarrow> int \<Rightarrow> int \<Rightarrow> int" where
  "days_from_civil y m d =
     (let y1 = (if m \<le> 2 then y - 1 else y);
          era = y1 div 400;
          yoe = y1 - era * 400;
          doy = (153 * (if m > 2 then m - 3 else m + 9) + 2) div 5 + d - 1;
          doe = yoe * 365 + yoe div 4 - yoe div 100 + doy
      in era * 146097 + doe - 719468)"

definition take_digits :: "nat \<Rightarrow> string \<Rightarrow> (int \<times> string) option" where
  "take_digits k s =
     (if k \<le> length s \<and> list_all is_digit (take k s)
      then Some (digits_val (take k s), drop k s) else None)"

definition expect :: "char \<Rightarrow> string \<Rightarrow> string option" where
  "expect c s = (case s of x # r \<Rightarrow> if x = c then Some r else None | [] \<Rightarrow> None)"

text \<open>A year: four digits, or a sign and six digits (\<^verbatim>\<open>-000000\<close> is not a year).\<close>

definition iso_year :: "string \<Rightarrow> (int \<times> string) option" where
  "iso_year s =
     (case s of
        [] \<Rightarrow> None
      | c # r \<Rightarrow>
          if c = CHR ''+'' then take_digits 6 r
          else if c = CHR ''-'' then
            (case take_digits 6 r of
               None \<Rightarrow> None
             | Some (y, r1) \<Rightarrow> if y = 0 then None else Some (- y, r1))
          else take_digits 4 s)"

text \<open>\<^verbatim>\<open>YYYY-MM-DD\<close>: the day number and the rest of the string.\<close>

definition iso_date :: "string \<Rightarrow> (int \<times> string) option" where
  "iso_date s = do {
     (y, r1) \<leftarrow> iso_year s;
     r2 \<leftarrow> expect CHR ''-'' r1;
     (m, r3) \<leftarrow> take_digits 2 r2;
     r4 \<leftarrow> expect CHR ''-'' r3;
     (d, r5) \<leftarrow> take_digits 2 r4;
     if 1 \<le> m \<and> m \<le> 12 \<and> 1 \<le> d \<and> d \<le> days_in_month y m
     then Some (days_from_civil y m d, r5) else None
   }"

text \<open>\<^verbatim>\<open>THH:mm:ss\<close>: the milliseconds into the day and the rest of the string.\<close>

definition iso_time :: "string \<Rightarrow> (int \<times> string) option" where
  "iso_time s = do {
     r1 \<leftarrow> expect CHR ''T'' s;
     (h, r2) \<leftarrow> take_digits 2 r1;
     r3 \<leftarrow> expect CHR '':'' r2;
     (mi, r4) \<leftarrow> take_digits 2 r3;
     r5 \<leftarrow> expect CHR '':'' r4;
     (se, r6) \<leftarrow> take_digits 2 r5;
     if h \<le> 23 \<and> mi \<le> 59 \<and> se \<le> 59
     then Some (h * 3600000 + mi * 60000 + se * 1000, r6) else None
   }"

text \<open>
  The part of the ECMAScript date-time string format recognised here: a full date
  alone (an instant: midnight UTC), a full date and a time to the second (a local wall
  clock reading), and the same followed by \<^verbatim>\<open>Z\<close> (an instant).  Field values are
  checked, as the format demands.  Every other string is left to
  \<^const>\<open>fallbackParse\<close>.
\<close>

definition parse_iso :: "string \<Rightarrow> parsed_time option" where
  "parse_iso s = do {
     (days, r) \<leftarrow> iso_date s;
     if r = [] then Some (UtcTime (days * 86400000))
     else do {
       (ms, z) \<leftarrow> iso_time r;
       if z = [] then Some (LocalTime (days * 86400000 + ms))
       else if z = ''Z'' then Some (UtcTime (days * 86400000 + ms))
       else None
     }
   }"

definition date_parse :: "runtime \<Rightarrow> string \<Rightarrow> parsed_time" where
  "date_parse env s = (case parse_iso s of Some p \<Rightarrow> p | None \<Rightarrow> fallbackParse env s)"

text \<open>
  \<^verbatim>\<open>new Date(s)\<close> for a string: a local wall clock reading \<open>w\<close> is the instant
  \<open>w + getTimezoneOffset() * 60000\<close>.
\<close>

definition new_Date_string :: "runtime \<Rightarrow> string \<Rightarrow> Date" where
  "new_Date_string env s =
     (case date_parse env s of
        Unrecognised \<Rightarrow> Date None
      | LocalTime w \<Rightarrow> new_Date_value (w + localOffsetMin env * 60000)
      | UtcTime t \<Rightarrow> new_Date_value t)"

text \<open>\<^verbatim>\<open>s.replace(" ", "T")\<close>: only the first space is replaced.\<close>

fun replace_first :: "char \<Rightarrow> char \<Rightarrow> string \<Rightarrow> string" where
  "replace_first a b [] = []"
| "replace_first a b (c # cs) = (if c = a then b # cs else c # replace_first a b cs)"

section \<open>The parser\<close>

subsection \<open>parseTimestamp\<close>

text \<open>
  Lines 42-62.  \<^verbatim>\<open>null\<close> is \<^const>\<open>None\<close>.  The offset is a whole number of
  hours.  Nothing in the body throws on a string, so the \<^verbatim>\<open>catch\<close> has no
  branch here.
\<close>

definition parseTimestamp :: "runtime \<Rightarrow> string \<Rightarrow> int \<Rightarrow> Date option" where
  "parseTimestamp env timestampStr timezoneOffset =
     (if timestampStr = [] then None
      else
        let clean = map (\<lambda>c. if c = CHR ''/'' then CHR ''-'' else c) (trim timestampStr);
            date = new_Date_string env clean;
            date2 = (case getTime date of
                       None \<Rightarrow> new_Date_string env (replace_first CHR '' '' CHR ''T'' clean)
                     | Some _ \<Rightarrow> date)
        in case getTime date2 of
             None \<Rightarrow> None
           | Some t \<Rightarrow>
               let serverOffsetMin = localOffsetMin env;
                   deviceOffsetMin = - timezoneOffset * 60;
                   offsetDifferenceMin = deviceOffsetMin - serverOffsetMin
               in Some (new_Date_value (t + offsetDifferenceMin * 60 * 1000)))"

subsection \<open>Enumerations and records of types.ts\<close>

text \<open>
  The three enums are numeric: at run time a value of the enum type is a number, and
  \<^verbatim>\<open>num as WorkCode\<close> is no check.  So the fields hold integers, and the members
  are named constants.  \<^verbatim>\<open>Object.values\<close> of a numeric enum also lists the member
  names; only its numbers can equal a number.
\<close>

definition UNKNOWN :: int where "UNKNOWN = 0"
definition FINGERPRINT :: int where "FINGERPRINT = 1"
definition PASSWORD :: int where "PASSWORD = 2"
definition CARD :: int where "CARD = 3"
definition FACE :: int where "FACE = 15"
definition PALM :: int where "PALM = 25"

definition VerifyType_values :: "int list" where
  "VerifyType_values = [UNKNOWN, FINGERPRINT, PASSWORD, CARD, FACE, PALM]"

definition CHECK_IN :: int where "CHECK_IN = 0"
definition CHECK_OUT :: int where "CHECK_OUT = 1"
definition BREAK_OUT :: int where "BREAK_OUT = 2"
definition BREAK_IN :: int where "BREAK_IN = 3"
definition OT_IN :: int where "OT_IN = 4"
definition OT_OUT :: int where "OT_OUT = 5"

definition InOutMode_values :: "int list" where
  "InOutMode_values = [CHECK_IN, CHECK_OUT, BREAK_OUT, BREAK_IN, OT_IN, OT_OUT]"

definition NORMAL :: int where "NORMAL = 0"
definition OVERTIME :: int where "OVERTIME = 1"
definition HOLIDAY :: int where "HOLIDAY = 2"
definition WEEKEND :: int where "WEEKEND = 3"

definition WorkCode_values :: "int list" where
  "WorkCode_values = [NORMAL, OVERTIME, HOLIDAY, WEEKEND]"

record AttendanceLog =
  userID :: string
  timestamp :: Date
  inOutMode :: int
  verifyType :: int
  workCode :: int
  deviceID :: "int option"
  reserved :: "string list option"
  raw :: "string option"


record 'a ParseResult =
  success :: bool
  data :: "'a option"
  error :: "string option"
  warnings :: "string list option"

text \<open>
  The options the parser reads.  An absent flag is falsy; \<^verbatim>\<open>timezoneOffset\<close> is
  read with \<^verbatim>\<open>?? 4\<close>.
\<close>

record ParserOptions =
  strictMode :: bool
  includeRawData :: bool
  timezoneOffset :: "int option"

subsection \<open>Coercers\<close>

text \<open>Lines 70-77.  The argument may be \<^verbatim>\<open>undefined\<close>; \<^verbatim>\<open>null\<close> is \<^const>\<open>None\<close>.\<close>

definition parseVerifyType :: "string option \<Rightarrow> int option" where
  "parseVerifyType v =
     (case truthy v of
        None \<Rightarrow> None
      | Some s \<Rightarrow>
          (case js_parseInt s of
             None \<Rightarrow> None
           | Some num \<Rightarrow> if num \<in> set VerifyType_values then Some num else None))"

text \<open>Lines 85-92.\<close>

definition parseInOutMode :: "string option \<Rightarrow> int option" where
  "parseInOutMode v =
     (case truthy v of
        None \<Rightarrow> None
      | Some s \<Rightarrow>
          (case js_parseInt s of
             None \<Rightarrow> None
           | Some num \<Rightarrow> if num \<in> set InOutMode_values then Some num else None))"

text \<open>Lines 100-103: the parsed number is returned as it is, whatever its value.\<close>

definition parseWorkCode :: "string \<Rightarrow> int" where
  "parseWorkCode v = (case js_parseInt v of None \<Rightarrow> NORMAL | Some num \<Rightarrow> num)"

text \<open>Lines 111-114.\<close>

definition parseNumber :: "string \<Rightarrow> int option" where
  "parseNumber v = js_parseInt v"

subsection \<open>parseSingleAttendanceRecord\<close>

text \<open>
  Lines 131-203.  The line number is accepted and not used.  No call in the
  \<^verbatim>\<open>try\<close> block throws, so the \<^verbatim>\<open>catch\<close> has no branch here.
\<close>

definition parseSingleAttendanceRecord ::
    "runtime \<Rightarrow> string \<Rightarrow> nat option \<Rightarrow> ParserOptions \<Rightarrow> AttendanceLog ParseResult" where
  "parseSingleAttendanceRecord env line lineNumber options =
     (let parts = split_on TAB line in
      if length parts < 4 then
        \<lparr>success = False, data = None,
         error = Some (''Insufficient fields ('' @ show_nat (length parts) @ ''/4 minimum required)''),
         warnings = None\<rparr>
      else
        case truthy (map_option trim (nth_opt parts 0)) of
          None \<Rightarrow> \<lparr>success = False, data = None, error = Some ''Missing User ID'', warnings = None\<rparr>
        | Some userID' \<Rightarrow>
        (case truthy (map_option trim (nth_opt parts 1)) of
          None \<Rightarrow> \<lparr>success = False, data = None, error = Some ''Missing timestamp'', warnings = None\<rparr>
        | Some timestampStr \<Rightarrow>
        (case parseTimestamp env timestampStr
               (case timezoneOffset options of None \<Rightarrow> 4 | Some tz \<Rightarrow> tz) of
          None \<Rightarrow> \<lparr>success = False, data = None,
                    error = Some (''Invalid timestamp format: '' @ timestampStr), warnings = None\<rparr>
        | Some timestamp' \<Rightarrow>
            let inOutModeRaw = map_option trim (nth_opt parts 2);
                inOutMode' = parseInOutMode inOutModeRaw;
                warnings1 =
                  (if inOutMode' = None
                   then [''Unknown in/out mode: '' @ show_opt inOutModeRaw @ '', using CHECK_IN'']
                   else []);
                verifyTypeRaw = map_option trim (nth_opt parts 3);
                verifyType' = parseVerifyType verifyTypeRaw;
                warnings2 =
                  (if verifyType' = None
                   then warnings1 @ [''Unknown verify type: '' @ show_opt verifyTypeRaw @ '', using UNKNOWN'']
                   else warnings1);
                workCode' = (case truthy (nth_opt parts 4) of
                              Some p \<Rightarrow> parseWorkCode (trim p)
                            | None \<Rightarrow> NORMAL);
                deviceID' = (case truthy (nth_opt parts 5) of
                              Some p \<Rightarrow> parseNumber (trim p)
                            | None \<Rightarrow> None);
                reserved' = filter (\<lambda>p. length p > 0) (map trim (drop 6 parts));
                attendanceLog =
                  \<lparr>userID = userID',
                   timestamp = timestamp',
                   inOutMode = (case inOutMode' of None \<Rightarrow> CHECK_IN | Some m \<Rightarrow> m),
                   verifyType = (case verifyType' of None \<Rightarrow> UNKNOWN | Some v \<Rightarrow> v),
                   workCode = workCode',
                   deviceID = deviceID',
                   reserved = (if length reserved' > 0 then Some reserved' else None),
                   raw = (if includeRawData options then Some line else None)\<rparr>
            in \<lparr>success = True, data = Some attendanceLog, error = None,
                warnings = (if length warnings2 > 0 then Some warnings2 else None)\<rparr>)))"

subsection \<open>parseAttendanceLog\<close>

text \<open>Lines 225-228: the body is trimmed, split at line feeds, and blank lines are dropped.\<close>

definition body_lines :: "string \<Rightarrow> string list" where
  "body_lines body = filter (\<lambda>line. trim line \<noteq> []) (split_on LF (trim body))"

text \<open>
  Lines 232-260: the loop over \<^verbatim>\<open>lines\<close>, from index \<open>i\<close> on, with the two
  accumulators.  An early \<^verbatim>\<open>return\<close> ends the recursion.  The per-line parser
  does not throw, so the \<^verbatim>\<open>catch\<close> has no branch here.
\<close>

fun process_lines ::
    "runtime \<Rightarrow> ParserOptions \<Rightarrow> nat \<Rightarrow> string list \<Rightarrow> AttendanceLog list \<Rightarrow> string list
      \<Rightarrow> AttendanceLog list ParseResult" where
  "process_lines env options i [] attendances ws =
     \<lparr>success = True, data = Some attendances, error = None,
      warnings = (if length ws > 0 then Some ws else None)\<rparr>"
| "process_lines env options i (rawLine # rest) attendances ws =
     (if rawLine = [] then process_lines env options (i + 1) rest attendances ws
      else
        let line = trim rawLine;
            lineNumber = i + 1
        in if line = [] then process_lines env options (i + 1) rest attendances ws
           else
             let result = parseSingleAttendanceRecord env line (Some lineNumber) options;
                 attendances1 =
                   (case data result of
                      Some d \<Rightarrow> if success result then attendances @ [d] else attendances
                    | None \<Rightarrow> attendances);
                 ws1 = (case warnings result of Some rw \<Rightarrow> ws @ rw | None \<Rightarrow> ws)
             in case truthy (error result) of
                  Some e \<Rightarrow>
                    if strictMode options then
                      \<lparr>success = False, data = None,
                       error = Some (''Line '' @ show_nat lineNumber @ '': '' @ e),
                       warnings = None\<rparr>
                    else process_lines env options (i + 1) rest attendances1
                           (ws1 @ [''Line '' @ show_nat lineNumber @ '': '' @ e])
                | None \<Rightarrow> process_lines env options (i + 1) rest attendances1 ws1)"

text \<open>
  Lines 217-267.  The argument is typed as a string, and the entry check also turns
  away any value that is not one: \<^const>\<open>None\<close> stands for such a value.
\<close>

definition parseAttendanceLog ::
    "runtime \<Rightarrow> string option \<Rightarrow> ParserOptions \<Rightarrow> AttendanceLog list ParseResult" where
  "parseAttendanceLog env input options =
     (case truthy input of
        None \<Rightarrow> \<lparr>success = False, data = None,
                  error = Some ''Invalid or empty attendance data'', warnings = None\<rparr>
      | Some body \<Rightarrow> process_lines env options 0 (body_lines body) [] [])"

subsection \<open>parseDeviceInfo\<close>




subsection \<open>validateAttendanceLog\<close>

text \<open>Lines 413-435.  A \<^verbatim>\<open>Date\<close> object is truthy, valid or not.\<close>

definition validateAttendanceLog :: "AttendanceLog \<Rightarrow> AttendanceLog ParseResult" where
  "validateAttendanceLog log =
     (let errors1 = (if userID log = [] \<or> length (trim (userID log)) = 0
                     then [''User ID is required''] else []);
          errors2 = (if getTime (timestamp log) = None
                     then errors1 @ [''Valid timestamp is required''] else errors1);
          errors3 = (if verifyType log \<in> set VerifyType_values
                     then errors2 else errors2 @ [''Invalid verify type'']);
          errors4 = (if inOutMode log \<in> set InOutMode_values
                     then errors3 else errors3 @ [''Invalid in/out mode''])
      in if length errors4 > 0 then
           \<lparr>success = False, data = None, error = Some (js_join '', '' errors4), warnings = None\<rparr>
         else \<lparr>success = True, data = Some log, error = None, warnings = None\<rparr>)"

section \<open>Concrete inputs\<close>

text \<open>
  A process running in UTC and one running in Dubai (UTC+4), both with an engine that
  recognises nothing beyond the ECMAScript format; the options of a call that passes
  none, and the same in strict mode; the line of the README and of the test.
\<close>

definition utc_process :: runtime where
  "utc_process = \<lparr>localOffsetMin = 0, fallbackParse = (\<lambda>_. Unrecognised)\<rparr>"

definition dubai_process :: runtime where
  "dubai_process = \<lparr>localOffsetMin = - 240, fallbackParse = (\<lambda>_. Unrecognised)\<rparr>"

definition default_options :: ParserOptions where
  "default_options = \<lparr>strictMode = False, includeRawData = False, timezoneOffset = None\<rparr>"

definition strict_options :: ParserOptions where
  "strict_options = \<lparr>strictMode = True, includeRawData = False, timezoneOffset = None\<rparr>"

definition readme_line :: string where
  "readme_line =
     js_join [TAB] [''11'', ''2025-08-27 10:57:49'', ''0'', ''25'', ''0'', ''0'', ''0'', ''0'', ''0'', ''0'']"



section \<open>Basic facts\<close>

subsection \<open>Strings\<close>

lemma split_on_not_Nil: "split_on sep s \<noteq> []"
  by (induction s) (auto split: list.splits)

lemma split_on_chars:
  "c \<in> set s \<Longrightarrow> c = sep \<or> (\<exists>l\<in>set (split_on sep s). c \<in> set l)"
proof (induction s)
  case Nil
  then show ?case by simp
next
  case (Cons x xs)
  obtain f fs where sp: "split_on sep xs = f # fs"
    using split_on_not_Nil [of sep xs] by (cases "split_on sep xs") auto
  show ?case
  proof (cases "x = sep")
    case True
    with Cons show ?thesis by auto
  next
    case False
    with Cons sp show ?thesis by auto
  qed
qed

lemma trim_Nil: "trim [] = []"
  by (simp add: trim_def)

lemma trim_all_ws:
  assumes "list_all is_ws s"
  shows "trim s = []"
proof -
  have d: "dropWhile is_ws s = []"
    using assms by (simp add: list_all_iff)
  show ?thesis
    unfolding trim_def d by simp
qed

lemma blank_lines_all_ws:
  assumes "\<forall>l\<in>set (split_on LF body). list_all is_ws l"
  shows "list_all is_ws body"
proof -
  have "is_ws LF"
    by (simp add: is_ws_def)
  then show ?thesis
    using assms split_on_chars [of _ body LF] unfolding list_all_iff by blast
qed

text \<open>Trimming twice is trimming once.\<close>

lemma dropWhile_unchanged: "xs = [] \<or> \<not> P (hd xs) \<Longrightarrow> dropWhile P xs = xs"
  by (cases xs) auto

lemma last_dropWhile: "dropWhile P xs \<noteq> [] \<Longrightarrow> last (dropWhile P xs) = last xs"
  by (metis last_appendR takeWhile_dropWhile_id)

lemma trim_trim: "trim (trim s) = trim s"
proof -
  define v where "v = dropWhile is_ws s"
  define u where "u = dropWhile is_ws (rev v)"
  have t: "trim s = rev u"
    by (simp add: trim_def u_def v_def)
  have "dropWhile is_ws (rev u) = rev u"
  proof (cases "u = []")
    case True
    then show ?thesis by simp
  next
    case False
    then have "last u = last (rev v)"
      unfolding u_def by (rule last_dropWhile)
    moreover from False have "v \<noteq> []"
      unfolding u_def by auto
    ultimately have "last u = hd v"
      by (simp add: last_rev)
    moreover have "\<not> is_ws (hd v)"
      using \<open>v \<noteq> []\<close> unfolding v_def by (rule hd_dropWhile)
    ultimately have "\<not> is_ws (hd (rev u))"
      using False by (simp add: hd_rev)
    then show ?thesis
      by (simp add: dropWhile_unchanged)
  qed
  moreover have "dropWhile is_ws u = u"
    unfolding u_def by simp
  ultimately have "trim (rev u) = rev u"
    by (simp add: trim_def)
  then show ?thesis
    by (simp add: t)
qed

subsection \<open>Coercers\<close>

lemma js_parseInt_Nil: "js_parseInt [] = None"
  by (simp add: js_parseInt_def)

lemma parseInOutMode_None_iff:
  "parseInOutMode (Some f) = None \<longleftrightarrow>
     f = [] \<or> js_parseInt f = None \<or> (\<exists>n. js_parseInt f = Some n \<and> n \<notin> set InOutMode_values)"
  by (auto simp: parseInOutMode_def truthy_def split: option.splits)

lemma parseVerifyType_None_iff:
  "parseVerifyType (Some f) = None \<longleftrightarrow>
     f = [] \<or> js_parseInt f = None \<or> (\<exists>n. js_parseInt f = Some n \<and> n \<notin> set VerifyType_values)"
  by (auto simp: parseVerifyType_def truthy_def split: option.splits)

lemma parseInOutMode_Some:
  "js_parseInt f = Some m \<Longrightarrow> m \<in> set InOutMode_values \<Longrightarrow> parseInOutMode (Some f) = Some m"
  by (auto simp: parseInOutMode_def truthy_def js_parseInt_Nil split: option.splits)

lemma parseVerifyType_Some:
  "js_parseInt f = Some v \<Longrightarrow> v \<in> set VerifyType_values \<Longrightarrow> parseVerifyType (Some f) = Some v"
  by (auto simp: parseVerifyType_def truthy_def js_parseInt_Nil split: option.splits)



section \<open>The timestamp normaliser\<close>

text \<open>
  Where the engine reads the cleaned string as a local wall clock reading \<open>w\<close>, the
  process's own offset cancels: the instant is \<open>w\<close> minus the device's offset,
  whatever zone the process runs in.
\<close>

lemma parseTimestamp_local_time:
  assumes "timestampStr \<noteq> []"
    and "date_parse env (map (\<lambda>c. if c = CHR ''/'' then CHR ''-'' else c) (trim timestampStr)) =
           LocalTime w"
    and "\<bar>w + localOffsetMin env * 60000\<bar> \<le> 8640000000000000"
  shows "parseTimestamp env timestampStr tz = Some (new_Date_value (w - tz * 3600000))"
proof -
  let ?clean = "map (\<lambda>c. if c = CHR ''/'' then CHR ''-'' else c) (trim timestampStr)"
  have d: "new_Date_string env ?clean = Date (Some (w + localOffsetMin env * 60000))"
    using assms(2,3) by (simp add: new_Date_string_def new_Date_value_def)
  have "parseTimestamp env timestampStr tz =
          Some (new_Date_value
            (w + localOffsetMin env * 60000 + (- tz * 60 - localOffsetMin env) * 60 * 1000))"
    using assms(1) unfolding parseTimestamp_def Let_def d by simp
  also have "w + localOffsetMin env * 60000 + (- tz * 60 - localOffsetMin env) * 60 * 1000 =
          w - tz * 3600000"
    by (simp add: algebra_simps)
  finally show ?thesis .
qed

lemma parseTimestamp_zone_independent:
  assumes "timestampStr \<noteq> []"
    and "date_parse env1 (map (\<lambda>c. if c = CHR ''/'' then CHR ''-'' else c) (trim timestampStr)) =
           LocalTime w"
    and "date_parse env2 (map (\<lambda>c. if c = CHR ''/'' then CHR ''-'' else c) (trim timestampStr)) =
           LocalTime w"
    and "\<bar>w + localOffsetMin env1 * 60000\<bar> \<le> 8640000000000000"
    and "\<bar>w + localOffsetMin env2 * 60000\<bar> \<le> 8640000000000000"
  shows "parseTimestamp env1 timestampStr tz = parseTimestamp env2 timestampStr tz"
  using assms by (simp add: parseTimestamp_local_time)

text \<open>The same where the first reading fails and the retry with \<^verbatim>\<open>T\<close> is read as local time.\<close>

lemma parseTimestamp_local_time_retry:
  assumes "timestampStr \<noteq> []"
    and "getTime (new_Date_string env
           (map (\<lambda>c. if c = CHR ''/'' then CHR ''-'' else c) (trim timestampStr))) = None"
    and "date_parse env (replace_first CHR '' '' CHR ''T''
           (map (\<lambda>c. if c = CHR ''/'' then CHR ''-'' else c) (trim timestampStr))) = LocalTime w"
    and "\<bar>w + localOffsetMin env * 60000\<bar> \<le> 8640000000000000"
  shows "parseTimestamp env timestampStr tz = Some (new_Date_value (w - tz * 3600000))"
proof -
  let ?clean = "map (\<lambda>c. if c = CHR ''/'' then CHR ''-'' else c) (trim timestampStr)"
  have d: "new_Date_string env (replace_first CHR '' '' CHR ''T'' ?clean) =
             Date (Some (w + localOffsetMin env * 60000))"
    using assms(3,4) by (simp add: new_Date_string_def new_Date_value_def)
  have "parseTimestamp env timestampStr tz =
          Some (new_Date_value
            (w + localOffsetMin env * 60000 + (- tz * 60 - localOffsetMin env) * 60 * 1000))"
    using assms(1) unfolding parseTimestamp_def Let_def assms(2) option.case d by simp
  also have "w + localOffsetMin env * 60000 + (- tz * 60 - localOffsetMin env) * 60 * 1000 =
          w - tz * 3600000"
    by (simp add: algebra_simps)
  finally show ?thesis .
qed

text \<open>
  The timestamp of the README line is accepted by every engine: either the engine
  reads the form with a space itself, or the retry with \<^verbatim>\<open>T\<close> is in the
  ECMAScript format.
\<close>

lemma readme_timestamp_parses:
  assumes "\<bar>localOffsetMin env\<bar> \<le> 1440"
  shows "\<exists>ts. parseTimestamp env ''2025-08-27 10:57:49'' 4 = Some ts"
proof -
  have tr: "trim ''2025-08-27 10:57:49'' = ''2025-08-27 10:57:49''"
    by code_simp
  have p2: "parse_iso ''2025-08-27T10:57:49'' = Some (LocalTime 1756292269000)"
    by code_simp
  have d2: "new_Date_string env ''2025-08-27T10:57:49'' =
              Date (Some (1756292269000 + localOffsetMin env * 60000))"
    using assms by (simp add: new_Date_string_def date_parse_def p2 new_Date_value_def)
  show ?thesis
    unfolding parseTimestamp_def tr Let_def
    by (cases "getTime (new_Date_string env ''2025-08-27 10:57:49'')") (simp_all add: d2)
qed

text \<open>
  Its instant is 2025-08-27 06:57:49 UTC in every process, where the engine either
  does not read the form with a space or reads it as local time.
\<close>

lemma readme_timestamp_instant:
  assumes zone: "\<bar>localOffsetMin env\<bar> \<le> 1440"
    and engine: "fallbackParse env ''2025-08-27 10:57:49'' = Unrecognised \<or>
                 fallbackParse env ''2025-08-27 10:57:49'' = LocalTime 1756292269000"
  shows "parseTimestamp env ''2025-08-27 10:57:49'' 4 = Some (Date (Some 1756277869000))"
proof -
  let ?s = "''2025-08-27 10:57:49''"
  have ne: "?s \<noteq> []"
    by simp
  have clean: "map (\<lambda>c. if c = CHR ''/'' then CHR ''-'' else c) (trim ?s) = ?s"
    by code_simp
  have retry: "replace_first CHR '' '' CHR ''T'' ?s = ''2025-08-27T10:57:49''"
    by code_simp
  have p1: "parse_iso ?s = None"
    by code_simp
  have p2: "parse_iso ''2025-08-27T10:57:49'' = Some (LocalTime 1756292269000)"
    by code_simp
  have range: "\<bar>1756292269000 + localOffsetMin env * 60000\<bar> \<le> 8640000000000000"
    using zone by simp
  have val: "new_Date_value (1756292269000 - 4 * 3600000) = Date (Some 1756277869000)"
    by (simp add: new_Date_value_def)
  from engine show ?thesis
  proof
    assume u: "fallbackParse env ?s = Unrecognised"
    then have "getTime (new_Date_string env ?s) = None"
      by (simp add: new_Date_string_def date_parse_def p1)
    moreover have "date_parse env ''2025-08-27T10:57:49'' = LocalTime 1756292269000"
      by (simp add: date_parse_def p2)
    ultimately show ?thesis
      using parseTimestamp_local_time_retry [of ?s env 1756292269000 4] ne range
      unfolding clean retry val by simp
  next
    assume l: "fallbackParse env ?s = LocalTime 1756292269000"
    then have "date_parse env ?s = LocalTime 1756292269000"
      by (simp add: date_parse_def p1)
    then show ?thesis
      using parseTimestamp_local_time [of ?s env 1756292269000 4] ne range
      unfolding clean val by simp
  qed
qed

text \<open>
  C1.  The normaliser is not independent of the zone of the executing process on
  every string.  The date-only string \<^verbatim>\<open>2025-08-27\<close> with device offset 4 gives
  2025-08-26 20:00:00 UTC in a process running in UTC and 2025-08-27 00:00:00 UTC in
  a process running in UTC+4: the engine reads a date-only string as an instant
  (midnight UTC), the process's offset never went into it, and subtracting that
  offset afterwards leaves it in the result.
\<close>

theorem date_only_depends_on_process_zone:
  "parseTimestamp utc_process ''2025-08-27'' 4 = Some (Date (Some 1756238400000)) \<and>
   parseTimestamp dubai_process ''2025-08-27'' 4 = Some (Date (Some 1756252800000))"
  by code_simp

section \<open>Single records\<close>

text \<open>The four ways a line is refused, and the record of a line that is accepted.\<close>

lemma parseSingle_short:
  "length (split_on TAB line) < 4 \<Longrightarrow>
   parseSingleAttendanceRecord env line lineNumber options =
     \<lparr>success = False, data = None,
      error = Some (''Insufficient fields ('' @ show_nat (length (split_on TAB line))
                     @ ''/4 minimum required)''),
      warnings = None\<rparr>"
  by (simp add: parseSingleAttendanceRecord_def Let_def)

lemma parseSingle_no_user:
  assumes "4 \<le> length (split_on TAB line)" and "trim (split_on TAB line ! 0) = []"
  shows "parseSingleAttendanceRecord env line lineNumber options =
     \<lparr>success = False, data = None, error = Some ''Missing User ID'', warnings = None\<rparr>"
proof -
  have nl: "\<not> length (split_on TAB line) < 4"
    using assms by simp
  have n0: "truthy (map_option trim (nth_opt (split_on TAB line) 0)) = None"
    using assms by (cases "split_on TAB line") (simp_all add: nth_opt_def truthy_def)
  show ?thesis
    unfolding parseSingleAttendanceRecord_def Let_def
    by (simp only: nl n0 if_False option.case)
qed

lemma parseSingle_no_timestamp:
  assumes "4 \<le> length (split_on TAB line)" and "trim (split_on TAB line ! 0) \<noteq> []"
    and "trim (split_on TAB line ! 1) = []"
  shows "parseSingleAttendanceRecord env line lineNumber options =
     \<lparr>success = False, data = None, error = Some ''Missing timestamp'', warnings = None\<rparr>"
proof -
  have nl: "\<not> length (split_on TAB line) < 4"
    using assms by simp
  have n0: "truthy (map_option trim (nth_opt (split_on TAB line) 0)) =
              Some (trim (split_on TAB line ! 0))"
    using assms by (cases "split_on TAB line") (simp_all add: nth_opt_def truthy_def)
  have n1: "truthy (map_option trim (nth_opt (split_on TAB line) 1)) = None"
    using assms by (simp add: nth_opt_def truthy_def)
  show ?thesis
    unfolding parseSingleAttendanceRecord_def Let_def
    by (simp only: nl n0 n1 if_False option.case)
qed

lemma parseSingle_bad_timestamp:
  assumes "4 \<le> length (split_on TAB line)" and "trim (split_on TAB line ! 0) \<noteq> []"
    and "trim (split_on TAB line ! 1) \<noteq> []"
    and "parseTimestamp env (trim (split_on TAB line ! 1))
           (case timezoneOffset options of None \<Rightarrow> 4 | Some tz \<Rightarrow> tz) = None"
  shows "parseSingleAttendanceRecord env line lineNumber options =
     \<lparr>success = False, data = None,
      error = Some (''Invalid timestamp format: '' @ trim (split_on TAB line ! 1)),
      warnings = None\<rparr>"
proof -
  have nl: "\<not> length (split_on TAB line) < 4"
    using assms by simp
  have n0: "truthy (map_option trim (nth_opt (split_on TAB line) 0)) =
              Some (trim (split_on TAB line ! 0))"
    using assms by (cases "split_on TAB line") (simp_all add: nth_opt_def truthy_def)
  have n1: "truthy (map_option trim (nth_opt (split_on TAB line) 1)) =
              Some (trim (split_on TAB line ! 1))"
    using assms by (simp add: nth_opt_def truthy_def)
  show ?thesis
    unfolding parseSingleAttendanceRecord_def Let_def
    by (simp only: nl n0 n1 assms(4) if_False option.case)
qed

lemma parseSingle_ok:
  assumes parts: "parts = split_on TAB line"
    and len: "4 \<le> length parts"
    and uid: "trim (parts ! 0) \<noteq> []"
    and tss: "trim (parts ! 1) \<noteq> []"
    and ts: "parseTimestamp env (trim (parts ! 1))
               (case timezoneOffset options of None \<Rightarrow> 4 | Some tz \<Rightarrow> tz) = Some ts"
  shows "parseSingleAttendanceRecord env line lineNumber options =
     \<lparr>success = True,
      data = Some
        \<lparr>userID = trim (parts ! 0),
         timestamp = ts,
         inOutMode = (case parseInOutMode (Some (trim (parts ! 2))) of None \<Rightarrow> CHECK_IN | Some m \<Rightarrow> m),
         verifyType = (case parseVerifyType (Some (trim (parts ! 3))) of None \<Rightarrow> UNKNOWN | Some v \<Rightarrow> v),
         workCode = (case truthy (nth_opt parts 4) of Some p \<Rightarrow> parseWorkCode (trim p) | None \<Rightarrow> NORMAL),
         deviceID = (case truthy (nth_opt parts 5) of Some p \<Rightarrow> parseNumber (trim p) | None \<Rightarrow> None),
         reserved = (if length (filter (\<lambda>p. length p > 0) (map trim (drop 6 parts))) > 0
                     then Some (filter (\<lambda>p. length p > 0) (map trim (drop 6 parts))) else None),
         raw = (if includeRawData options then Some line else None)\<rparr>,
      error = None,
      warnings =
        (if length
              ((if parseVerifyType (Some (trim (parts ! 3))) = None
                then (if parseInOutMode (Some (trim (parts ! 2))) = None
                   then [''Unknown in/out mode: '' @ trim (parts ! 2) @ '', using CHECK_IN''] else []) @ [''Unknown verify type: '' @ trim (parts ! 3) @ '', using UNKNOWN'']
                else (if parseInOutMode (Some (trim (parts ! 2))) = None
                   then [''Unknown in/out mode: '' @ trim (parts ! 2) @ '', using CHECK_IN''] else []))) > 0
         then Some ((if parseVerifyType (Some (trim (parts ! 3))) = None
                then (if parseInOutMode (Some (trim (parts ! 2))) = None
                   then [''Unknown in/out mode: '' @ trim (parts ! 2) @ '', using CHECK_IN''] else []) @ [''Unknown verify type: '' @ trim (parts ! 3) @ '', using UNKNOWN'']
                else (if parseInOutMode (Some (trim (parts ! 2))) = None
                   then [''Unknown in/out mode: '' @ trim (parts ! 2) @ '', using CHECK_IN''] else []))) else None)\<rparr>"
proof -
  have nl: "\<not> length parts < 4"
    using len by simp
  have n0: "truthy (map_option trim (nth_opt parts 0)) = Some (trim (parts ! 0))"
    using len uid by (cases parts) (simp_all add: nth_opt_def truthy_def)
  have n1: "truthy (map_option trim (nth_opt parts 1)) = Some (trim (parts ! 1))"
    using len tss by (simp add: nth_opt_def truthy_def)
  have n2: "map_option trim (nth_opt parts 2) = Some (trim (parts ! 2))"
    using len by (simp add: nth_opt_def)
  have n3: "map_option trim (nth_opt parts 3) = Some (trim (parts ! 3))"
    using len by (simp add: nth_opt_def)
  have so: "\<And>s. show_opt (Some s) = s"
    by (simp add: show_opt_def)
  show ?thesis
    unfolding parseSingleAttendanceRecord_def parts [symmetric] Let_def
    by (simp only: nl n0 n1 n2 n3 ts so if_False option.case)
qed

text \<open>Every outcome of the single-record parser is one of two shapes.\<close>

lemma parseSingle_outcome:
  "(\<exists>e. e \<noteq> [] \<and>
        parseSingleAttendanceRecord env line lineNumber options =
          \<lparr>success = False, data = None, error = Some e, warnings = None\<rparr>) \<or>
   (\<exists>r ws. parseSingleAttendanceRecord env line lineNumber options =
          \<lparr>success = True, data = Some r, error = None, warnings = ws\<rparr> \<and>
        (\<exists>f. userID r = trim f \<and> trim f \<noteq> []) \<and>
        (\<exists>s. parseTimestamp env s
                (case timezoneOffset options of None \<Rightarrow> 4 | Some tz \<Rightarrow> tz) = Some (timestamp r)) \<and>
        inOutMode r \<in> set InOutMode_values \<and>
        verifyType r \<in> set VerifyType_values)"
proof -
  let ?parts = "split_on TAB line"
  consider (short) "length ?parts < 4"
    | (nouser) "4 \<le> length ?parts" "trim (?parts ! 0) = []"
    | (nots) "4 \<le> length ?parts" "trim (?parts ! 0) \<noteq> []" "trim (?parts ! 1) = []"
    | (badts) "4 \<le> length ?parts" "trim (?parts ! 0) \<noteq> []" "trim (?parts ! 1) \<noteq> []"
        "parseTimestamp env (trim (?parts ! 1))
           (case timezoneOffset options of None \<Rightarrow> 4 | Some tz \<Rightarrow> tz) = None"
    | (ok) ts where "4 \<le> length ?parts" "trim (?parts ! 0) \<noteq> []" "trim (?parts ! 1) \<noteq> []"
        "parseTimestamp env (trim (?parts ! 1))
           (case timezoneOffset options of None \<Rightarrow> 4 | Some tz \<Rightarrow> tz) = Some ts"
    by (cases "parseTimestamp env (trim (?parts ! 1))
           (case timezoneOffset options of None \<Rightarrow> 4 | Some tz \<Rightarrow> tz)") force+
  then show ?thesis
  proof cases
    case short
    from parseSingle_short [OF this] show ?thesis by simp
  next
    case nouser
    from parseSingle_no_user [OF this] show ?thesis by simp
  next
    case nots
    from parseSingle_no_timestamp [OF this] show ?thesis by simp
  next
    case badts
    from parseSingle_bad_timestamp [OF this] show ?thesis by simp
  next
    case ok
    have mode: "(case parseInOutMode v of None \<Rightarrow> CHECK_IN | Some m \<Rightarrow> m) \<in> set InOutMode_values" for v
      by (auto simp: parseInOutMode_def InOutMode_values_def split: option.splits)
    have verify: "(case parseVerifyType v of None \<Rightarrow> UNKNOWN | Some m \<Rightarrow> m) \<in> set VerifyType_values" for v
      by (auto simp: parseVerifyType_def VerifyType_values_def split: option.splits)
    show ?thesis
      unfolding parseSingle_ok [OF refl ok]
      using ok(2) ok(4) mode verify by (intro disjI2) auto
  qed
qed

lemma parseSingle_lineNumber:
  "parseSingleAttendanceRecord env line n options = parseSingleAttendanceRecord env line n' options"
  by (simp add: parseSingleAttendanceRecord_def)

text \<open>
  C8.  A line that splits at tabs into fewer than four fields is refused: the result is
  a failure whose message reads \<^verbatim>\<open>Insufficient fields (k/4 minimum required)\<close>,
  \<open>k\<close> being the number of fields found, and it carries neither a record nor
  warnings.
\<close>

theorem insufficient_fields_fail:
  "length (split_on TAB line) < 4 \<Longrightarrow>
   parseSingleAttendanceRecord env line lineNumber options =
     \<lparr>success = False, data = None,
      error = Some (''Insufficient fields ('' @ show_nat (length (split_on TAB line))
                     @ ''/4 minimum required)''),
      warnings = None\<rparr>"
  by (rule parseSingle_short)

theorem insufficient_fields_fail_witness:
  "length (split_on TAB (''invalid'' @ TAB # ''data'')) < 4 \<and>
   parseSingleAttendanceRecord utc_process (''invalid'' @ TAB # ''data'') None default_options =
     \<lparr>success = False, data = None,
      error = Some ''Insufficient fields (2/4 minimum required)'',
      warnings = None\<rparr>"
proof -
  have short: "length (split_on TAB (''invalid'' @ TAB # ''data'')) < 4"
    by simp
  have two: "show_nat (length (split_on TAB (''invalid'' @ TAB # ''data''))) = ''2''"
    by (simp add: show_nat.simps)
  have "parseSingleAttendanceRecord utc_process (''invalid'' @ TAB # ''data'') None default_options =
     \<lparr>success = False, data = None,
      error = Some (''Insufficient fields ('' @ ''2'' @ ''/4 minimum required)''),
      warnings = None\<rparr>"
    using insufficient_fields_fail [OF short, of utc_process None default_options]
    unfolding two .
  with short show ?thesis
    by simp
qed

text \<open>
  C7.  A line of at least four tab-separated fields, with a user id and a timestamp
  that are not empty once trimmed, a timestamp the normaliser accepts, and in/out-mode
  and verify-method fields whose integers are members of their enums, is accepted
  without warnings; the record's user id is the trimmed field 0, its timestamp the
  normalised one, its in/out mode and verify method the integers of fields 2 and 3.
  In particular the README line gives user \<^verbatim>\<open>11\<close>, CHECK_IN, PALM and NORMAL
  without warnings, in every process whose offset from UTC is at most a day and
  whatever its engine makes of strings outside the ECMAScript date format.
\<close>

theorem first_columns_identity:
  "(parts = split_on TAB line \<and> 4 \<le> length parts \<and>
    trim (parts ! 0) \<noteq> [] \<and> trim (parts ! 1) \<noteq> [] \<and>
    parseTimestamp env (trim (parts ! 1))
      (case timezoneOffset options of None \<Rightarrow> 4 | Some tz \<Rightarrow> tz) = Some ts \<and>
    js_parseInt (trim (parts ! 2)) = Some m \<and> m \<in> set InOutMode_values \<and>
    js_parseInt (trim (parts ! 3)) = Some v \<and> v \<in> set VerifyType_values
    \<longrightarrow>
    (\<exists>r. parseSingleAttendanceRecord env line lineNumber options =
            \<lparr>success = True, data = Some r, error = None, warnings = None\<rparr> \<and>
          userID r = trim (parts ! 0) \<and> timestamp r = ts \<and>
          inOutMode r = m \<and> verifyType r = v)) \<and>
   (\<bar>localOffsetMin env\<bar> \<le> 1440 \<longrightarrow>
    (\<exists>r. parseSingleAttendanceRecord env readme_line lineNumber default_options =
            \<lparr>success = True, data = Some r, error = None, warnings = None\<rparr> \<and>
          userID r = ''11'' \<and> inOutMode r = CHECK_IN \<and> verifyType r = PALM \<and>
          workCode r = NORMAL))"
proof (intro conjI impI)
  assume a: "parts = split_on TAB line \<and> 4 \<le> length parts \<and>
    trim (parts ! 0) \<noteq> [] \<and> trim (parts ! 1) \<noteq> [] \<and>
    parseTimestamp env (trim (parts ! 1))
      (case timezoneOffset options of None \<Rightarrow> 4 | Some tz \<Rightarrow> tz) = Some ts \<and>
    js_parseInt (trim (parts ! 2)) = Some m \<and> m \<in> set InOutMode_values \<and>
    js_parseInt (trim (parts ! 3)) = Some v \<and> v \<in> set VerifyType_values"
  then have im: "js_parseInt (trim (parts ! 2)) = Some m" and mm: "m \<in> set InOutMode_values"
    and iv: "js_parseInt (trim (parts ! 3)) = Some v" and vv: "v \<in> set VerifyType_values"
    by blast+
  have ok: "parseInOutMode (Some (trim (parts ! 2))) = Some m"
      "parseVerifyType (Some (trim (parts ! 3))) = Some v"
    by (rule parseInOutMode_Some [OF im mm], rule parseVerifyType_Some [OF iv vv])
  from a have "parts = split_on TAB line" "4 \<le> length parts" "trim (parts ! 0) \<noteq> []"
      "trim (parts ! 1) \<noteq> []"
      "parseTimestamp env (trim (parts ! 1))
         (case timezoneOffset options of None \<Rightarrow> 4 | Some tz \<Rightarrow> tz) = Some ts"
    by blast+
  from parseSingle_ok [OF this]
  show "\<exists>r. parseSingleAttendanceRecord env line lineNumber options =
            \<lparr>success = True, data = Some r, error = None, warnings = None\<rparr> \<and>
          userID r = trim (parts ! 0) \<and> timestamp r = ts \<and>
          inOutMode r = m \<and> verifyType r = v"
    unfolding ok by simp
next
  assume b: "\<bar>localOffsetMin env\<bar> \<le> 1440"
  let ?parts = "[''11'', ''2025-08-27 10:57:49'', ''0'', ''25'', ''0'', ''0'', ''0'', ''0'', ''0'', ''0'']"
  have parts: "?parts = split_on TAB readme_line"
    by (simp add: readme_line_def)
  have len: "4 \<le> length ?parts"
    by simp
  have uid: "trim (?parts ! 0) \<noteq> []"
    by code_simp
  have uid2: "trim (?parts ! 0) = ''11''"
    by code_simp
  have tss: "trim (?parts ! 1) \<noteq> []"
    by code_simp
  have tss2: "trim (?parts ! 1) = ''2025-08-27 10:57:49''"
    by code_simp
  obtain ts' where ts: "parseTimestamp env (trim (?parts ! 1))
              (case timezoneOffset default_options of None \<Rightarrow> 4 | Some tz \<Rightarrow> tz) = Some ts'"
    unfolding tss2 using readme_timestamp_parses [OF b] by (auto simp: default_options_def)
  have m: "parseInOutMode (Some (trim (?parts ! 2))) = Some CHECK_IN"
    by code_simp
  have v: "parseVerifyType (Some (trim (?parts ! 3))) = Some PALM"
    by code_simp
  have w: "(case truthy (nth_opt ?parts 4) of Some p \<Rightarrow> parseWorkCode (trim p) | None \<Rightarrow> NORMAL) = NORMAL"
    by code_simp
  from parseSingle_ok [OF parts len uid tss ts]
  show "\<exists>r. parseSingleAttendanceRecord env readme_line lineNumber default_options =
            \<lparr>success = True, data = Some r, error = None, warnings = None\<rparr> \<and>
          userID r = ''11'' \<and> inOutMode r = CHECK_IN \<and> verifyType r = PALM \<and>
          workCode r = NORMAL"
    unfolding m v w uid2 by simp
qed

theorem first_columns_identity_witness:
  "(\<exists>r. parseSingleAttendanceRecord utc_process
            (js_join [TAB] [''7'', ''2025-08-27T10:57:49'', ''1'', ''15'']) None default_options =
            \<lparr>success = True, data = Some r, error = None, warnings = None\<rparr> \<and>
          userID r = ''7'' \<and> timestamp r = Date (Some 1756277869000) \<and>
          inOutMode r = CHECK_OUT \<and> verifyType r = FACE) \<and>
   (\<exists>r. parseSingleAttendanceRecord utc_process readme_line None default_options =
            \<lparr>success = True, data = Some r, error = None, warnings = None\<rparr> \<and>
          userID r = ''11'' \<and> inOutMode r = CHECK_IN \<and> verifyType r = PALM \<and>
          workCode r = NORMAL)"
proof -
  let ?line = "js_join [TAB] [''7'', ''2025-08-27T10:57:49'', ''1'', ''15'']"
  let ?parts = "[''7'', ''2025-08-27T10:57:49'', ''1'', ''15'']"
  have hyp: "?parts = split_on TAB ?line \<and> 4 \<le> length ?parts \<and>
    trim (?parts ! 0) \<noteq> [] \<and> trim (?parts ! 1) \<noteq> [] \<and>
    parseTimestamp utc_process (trim (?parts ! 1))
      (case timezoneOffset default_options of None \<Rightarrow> 4 | Some tz \<Rightarrow> tz) =
      Some (Date (Some 1756277869000)) \<and>
    js_parseInt (trim (?parts ! 2)) = Some CHECK_OUT \<and> CHECK_OUT \<in> set InOutMode_values \<and>
    js_parseInt (trim (?parts ! 3)) = Some FACE \<and> FACE \<in> set VerifyType_values"
    by code_simp
  have uid: "trim (?parts ! 0) = ''7''"
    by code_simp
  have zone: "\<bar>localOffsetMin utc_process\<bar> \<le> 1440"
    by (simp add: utc_process_def)
  from first_columns_identity [where parts = ?parts and line = ?line and env = utc_process
      and options = default_options and ts = "Date (Some 1756277869000)" and m = CHECK_OUT
      and v = FACE and lineNumber = None] hyp zone
  show ?thesis
    unfolding uid by blast
qed

text \<open>
  C6.  A line of at least four fields with a user id and a timestamp that are not empty
  once trimmed and a timestamp the normaliser accepts is accepted whatever fields 2
  and 3 hold.  Where the trimmed in/out-mode field is empty, has no leading integer,
  or its integer is not a member of the enum, the record's in/out mode is CHECK_IN
  and a warning naming the trimmed field is attached; likewise the verify method is
  UNKNOWN, with its own warning.
\<close>

theorem defaulted_mode_and_verify:
  assumes parts: "parts = split_on TAB line"
    and len: "4 \<le> length parts"
    and uid: "trim (parts ! 0) \<noteq> []"
    and tss: "trim (parts ! 1) \<noteq> []"
    and ts: "parseTimestamp env (trim (parts ! 1))
               (case timezoneOffset options of None \<Rightarrow> 4 | Some tz \<Rightarrow> tz) = Some ts"
  shows "\<exists>r ws. parseSingleAttendanceRecord env line lineNumber options =
            \<lparr>success = True, data = Some r, error = None, warnings = ws\<rparr> \<and>
          ((trim (parts ! 2) = [] \<or> js_parseInt (trim (parts ! 2)) = None \<or>
            (\<exists>n. js_parseInt (trim (parts ! 2)) = Some n \<and> n \<notin> set InOutMode_values)) \<longrightarrow>
             inOutMode r = CHECK_IN \<and>
             (\<exists>w. ws = Some w \<and>
                (''Unknown in/out mode: '' @ trim (parts ! 2) @ '', using CHECK_IN'') \<in> set w)) \<and>
          ((trim (parts ! 3) = [] \<or> js_parseInt (trim (parts ! 3)) = None \<or>
            (\<exists>n. js_parseInt (trim (parts ! 3)) = Some n \<and> n \<notin> set VerifyType_values)) \<longrightarrow>
             verifyType r = UNKNOWN \<and>
             (\<exists>w. ws = Some w \<and>
                (''Unknown verify type: '' @ trim (parts ! 3) @ '', using UNKNOWN'') \<in> set w))"
  unfolding parseSingle_ok [OF parts len uid tss ts]
    parseInOutMode_None_iff [symmetric] parseVerifyType_None_iff [symmetric]
  by simp

theorem defaulted_mode_and_verify_witness:
  "\<exists>r ws. parseSingleAttendanceRecord utc_process
             (js_join [TAB] [''1'', ''2025-08-27 10:57:49'', ''9'', ''x'']) None default_options =
            \<lparr>success = True, data = Some r, error = None, warnings = ws\<rparr> \<and>
          inOutMode r = CHECK_IN \<and> verifyType r = UNKNOWN \<and>
          (\<exists>w. ws = Some w \<and> ''Unknown in/out mode: 9, using CHECK_IN'' \<in> set w) \<and>
          (\<exists>w. ws = Some w \<and> ''Unknown verify type: x, using UNKNOWN'' \<in> set w)"
proof -
  let ?line = "js_join [TAB] [''1'', ''2025-08-27 10:57:49'', ''9'', ''x'']"
  let ?parts = "[''1'', ''2025-08-27 10:57:49'', ''9'', ''x'']"
  have parts: "?parts = split_on TAB ?line"
    by simp
  have len: "4 \<le> length ?parts"
    by simp
  have uid: "trim (?parts ! 0) \<noteq> []"
    by code_simp
  have tss: "trim (?parts ! 1) \<noteq> []"
    by code_simp
  have ts: "parseTimestamp utc_process (trim (?parts ! 1))
              (case timezoneOffset default_options of None \<Rightarrow> 4 | Some tz \<Rightarrow> tz) =
            Some (Date (Some 1756277869000))"
    by code_simp
  have "js_parseInt (trim (?parts ! 2)) = Some 9" and "(9::int) \<notin> set InOutMode_values"
    by code_simp+
  then have m: "\<exists>n. js_parseInt (trim (?parts ! 2)) = Some n \<and> n \<notin> set InOutMode_values"
    by blast
  have m2: "trim (?parts ! 2) = ''9''"
    by code_simp
  have v: "js_parseInt (trim (?parts ! 3)) = None"
    by code_simp
  have v2: "trim (?parts ! 3) = ''x''"
    by code_simp
  from defaulted_mode_and_verify [OF parts len uid tss ts, of None] m v
  show ?thesis
    unfolding m2 v2 by auto
qed

text \<open>
  Where the work-code field is absent, empty, or has no leading integer, the record's
  work code is NORMAL.
\<close>

lemma work_code_defaults:
  assumes parts: "parts = split_on TAB line"
    and len: "4 \<le> length parts"
    and uid: "trim (parts ! 0) \<noteq> []"
    and tss: "trim (parts ! 1) \<noteq> []"
    and ts: "parseTimestamp env (trim (parts ! 1))
               (case timezoneOffset options of None \<Rightarrow> 4 | Some tz \<Rightarrow> tz) = Some ts"
    and wc: "length parts = 4 \<or> parts ! 4 = [] \<or> js_parseInt (trim (parts ! 4)) = None"
  shows "\<exists>r ws. parseSingleAttendanceRecord env line lineNumber options =
            \<lparr>success = True, data = Some r, error = None, warnings = ws\<rparr> \<and>
          workCode r = NORMAL"
proof -
  have "(case truthy (nth_opt parts 4) of Some p \<Rightarrow> parseWorkCode (trim p) | None \<Rightarrow> NORMAL) = NORMAL"
    using wc len by (auto simp: truthy_def nth_opt_def parseWorkCode_def split: option.splits)
  then show ?thesis
    unfolding parseSingle_ok [OF parts len uid tss ts] by simp
qed

text \<open>
  C5.  An integer outside the work-code set is not replaced by NORMAL.  The line
  with fields \<^verbatim>\<open>1\<close>, \<^verbatim>\<open>2025-08-27 10:57:49\<close>, \<^verbatim>\<open>0\<close>, \<^verbatim>\<open>1\<close>,
  \<^verbatim>\<open>7\<close> is accepted without warnings, and the work code of its record is 7,
  which is neither NORMAL nor any other member of the set.
\<close>

theorem work_code_outside_set_is_kept:
  "\<exists>r. parseSingleAttendanceRecord utc_process
           (js_join [TAB] [''1'', ''2025-08-27 10:57:49'', ''0'', ''1'', ''7'']) None default_options =
           \<lparr>success = True, data = Some r, error = None, warnings = None\<rparr> \<and>
        workCode r = 7 \<and> workCode r \<notin> set WorkCode_values \<and> workCode r \<noteq> NORMAL"
proof -
  have "parseSingleAttendanceRecord utc_process
           (js_join [TAB] [''1'', ''2025-08-27 10:57:49'', ''0'', ''1'', ''7'']) None default_options =
           \<lparr>success = True,
            data = Some \<lparr>userID = ''1'', timestamp = Date (Some 1756277869000), inOutMode = 0,
                         verifyType = 1, workCode = 7, deviceID = None, reserved = None,
                         raw = None\<rparr>,
            error = None, warnings = None\<rparr>"
    by code_simp
  moreover have "(7::int) \<notin> set WorkCode_values" and "(7::int) \<noteq> NORMAL"
    by code_simp+
  ultimately show ?thesis
    by simp
qed

text \<open>A returned record whose timestamp is a valid date passes the validator.\<close>

lemma valid_timestamp_validates:
  assumes res: "parseSingleAttendanceRecord env line lineNumber options =
                  \<lparr>success = True, data = Some r, error = None, warnings = ws\<rparr>"
    and valid: "getTime (timestamp r) \<noteq> None"
  shows "validateAttendanceLog r =
           \<lparr>success = True, data = Some r, error = None, warnings = None\<rparr>"
proof -
  from parseSingle_outcome [of env line lineNumber options] res
  obtain f where "userID r = trim f" "trim f \<noteq> []"
    and "inOutMode r \<in> set InOutMode_values" "verifyType r \<in> set VerifyType_values"
    by auto
  with valid show ?thesis
    by (simp add: validateAttendanceLog_def trim_trim)
qed

text \<open>
  C10.  A returned record need not pass the validator.  The line with fields
  \<^verbatim>\<open>1\<close>, \<^verbatim>\<open>-271821-04-20T00:00:00Z\<close> (the first instant a date can hold),
  \<^verbatim>\<open>0\<close>, \<^verbatim>\<open>0\<close>, parsed with the default options in a process running in
  UTC, is accepted; shifting by the device offset leaves the range of dates, so the
  timestamp of the record is the invalid date, and the validator refuses the record
  with \<^verbatim>\<open>Valid timestamp is required\<close>.
\<close>

theorem success_with_invalid_date_fails_validation:
  "\<exists>r. parseSingleAttendanceRecord utc_process
           (js_join [TAB] [''1'', ''-271821-04-20T00:00:00Z'', ''0'', ''0'']) None default_options =
           \<lparr>success = True, data = Some r, error = None, warnings = None\<rparr> \<and>
        getTime (timestamp r) = None \<and>
        validateAttendanceLog r =
          \<lparr>success = False, data = None, error = Some ''Valid timestamp is required'',
           warnings = None\<rparr>"
proof -
  let ?r = "\<lparr>userID = ''1'', timestamp = Date None, inOutMode = 0,
                         verifyType = 0, workCode = 0, deviceID = None, reserved = None,
                         raw = None\<rparr>"
  have "parseSingleAttendanceRecord utc_process
           (js_join [TAB] [''1'', ''-271821-04-20T00:00:00Z'', ''0'', ''0'']) None default_options =
           \<lparr>success = True, data = Some ?r, error = None, warnings = None\<rparr>"
    by code_simp
  moreover have "validateAttendanceLog ?r =
          \<lparr>success = False, data = None, error = Some ''Valid timestamp is required'',
           warnings = None\<rparr>"
    by code_simp
  ultimately show ?thesis
    by simp
qed

section \<open>Batches\<close>

lemma body_lines_nonblank: "l \<in> set (body_lines body) \<Longrightarrow> trim l \<noteq> []"
  by (simp add: body_lines_def)

lemma process_lines_good_step:
  assumes "trim l \<noteq> []"
    and "parseSingleAttendanceRecord env (trim l) (Some (i + 1)) options =
           \<lparr>success = True, data = Some r, error = None, warnings = w\<rparr>"
  shows "process_lines env options i (l # rest) atts ws =
           process_lines env options (i + 1) rest (atts @ [r])
             (case w of Some rw \<Rightarrow> ws @ rw | None \<Rightarrow> ws)"
proof -
  have "l \<noteq> []"
    using assms(1) trim_Nil by auto
  then show ?thesis
    using assms by (simp add: Let_def truthy_def)
qed

lemma process_lines_bad_step:
  assumes "trim l \<noteq> []" and "e \<noteq> []"
    and "parseSingleAttendanceRecord env (trim l) (Some (i + 1)) options =
           \<lparr>success = False, data = None, error = Some e, warnings = None\<rparr>"
  shows "process_lines env options i (l # rest) atts ws =
           (if strictMode options then
              \<lparr>success = False, data = None,
               error = Some (''Line '' @ show_nat (i + 1) @ '': '' @ e), warnings = None\<rparr>
            else process_lines env options (i + 1) rest atts
                   (ws @ [''Line '' @ show_nat (i + 1) @ '': '' @ e]))"
proof -
  have "l \<noteq> []"
    using assms(1) trim_Nil by auto
  then show ?thesis
    using assms by (simp add: Let_def truthy_def)
qed

text \<open>In lenient mode the loop runs to the end and the batch succeeds.\<close>

lemma process_lines_lenient:
  assumes "\<not> strictMode options"
  shows "success (process_lines env options i ls atts ws)"
proof (induction ls arbitrary: i atts ws)
  case Nil
  show ?case by simp
next
  case (Cons l ls)
  show ?case
  proof (cases "trim l = []")
    case True
    then show ?thesis
      using Cons.IH by (simp add: Let_def)
  next
    case False
    from parseSingle_outcome [of env "trim l" "Some (i + 1)" options]
    show ?thesis
    proof (elim disjE exE conjE)
      fix e
      assume "e \<noteq> []" and "parseSingleAttendanceRecord env (trim l) (Some (i + 1)) options =
          \<lparr>success = False, data = None, error = Some e, warnings = None\<rparr>"
      from process_lines_bad_step [OF False this] assms Cons.IH
      show ?thesis by simp
    next
      fix r w
      assume "parseSingleAttendanceRecord env (trim l) (Some (i + 1)) options =
          \<lparr>success = True, data = Some r, error = None, warnings = w\<rparr>"
      from process_lines_good_step [OF False this] Cons.IH
      show ?thesis by simp
    qed
  qed
qed

text \<open>A run of lines that all parse adds one record each and no line-numbered message.\<close>

lemma process_lines_good_prefix:
  assumes "\<forall>l\<in>set pre. trim l \<noteq> [] \<and> success (parseSingleAttendanceRecord env (trim l) None options)"
  shows "\<exists>recs ws'. length recs = length pre \<and>
           (\<forall>rest. process_lines env options i (pre @ rest) atts ws =
                    process_lines env options (i + length pre) rest (atts @ recs) (ws @ ws'))"
  using assms
proof (induction pre arbitrary: i atts ws)
  case Nil
  show ?case
    by (rule exI [of _ "[]"], rule exI [of _ "[]"]) simp
next
  case (Cons l pre)
  then have nb: "trim l \<noteq> []"
    and good: "success (parseSingleAttendanceRecord env (trim l) None options)"
    by simp_all
  from good have "success (parseSingleAttendanceRecord env (trim l) (Some (i + 1)) options)"
    using parseSingle_lineNumber [of env "trim l" None options "Some (i + 1)"] by simp
  with parseSingle_outcome [of env "trim l" "Some (i + 1)" options]
  obtain r w where res: "parseSingleAttendanceRecord env (trim l) (Some (i + 1)) options =
          \<lparr>success = True, data = Some r, error = None, warnings = w\<rparr>"
    by auto
  from Cons.prems have "\<forall>l\<in>set pre. trim l \<noteq> [] \<and>
      success (parseSingleAttendanceRecord env (trim l) None options)"
    by simp
  from Cons.IH [OF this, of "i + 1" "atts @ [r]" "case w of Some rw \<Rightarrow> ws @ rw | None \<Rightarrow> ws"]
  obtain recs ws' where len: "length recs = length pre"
    and run: "\<And>rest. process_lines env options (i + 1) (pre @ rest) (atts @ [r])
                 (case w of Some rw \<Rightarrow> ws @ rw | None \<Rightarrow> ws) =
               process_lines env options (i + 1 + length pre) rest ((atts @ [r]) @ recs)
                 ((case w of Some rw \<Rightarrow> ws @ rw | None \<Rightarrow> ws) @ ws')"
    by blast
  have "(case w of Some rw \<Rightarrow> ws @ rw | None \<Rightarrow> ws) @ ws' =
          ws @ ((case w of Some rw \<Rightarrow> rw | None \<Rightarrow> []) @ ws')"
    by (cases w) simp_all
  with run have run': "\<And>rest. process_lines env options (i + 1) (pre @ rest) (atts @ [r])
                 (case w of Some rw \<Rightarrow> ws @ rw | None \<Rightarrow> ws) =
               process_lines env options (i + length (l # pre)) rest (atts @ (r # recs))
                 (ws @ ((case w of Some rw \<Rightarrow> rw | None \<Rightarrow> []) @ ws'))"
    by simp
  show ?case
  proof (intro exI conjI allI)
    show "length (r # recs) = length (l # pre)"
      using len by simp
    fix rest
    show "process_lines env options i ((l # pre) @ rest) atts ws =
        process_lines env options (i + length (l # pre)) rest (atts @ (r # recs))
          (ws @ ((case w of Some rw \<Rightarrow> rw | None \<Rightarrow> []) @ ws'))"
      using process_lines_good_step [OF nb res, of "pre @ rest" atts ws] run' [of rest]
      by simp
  qed
qed

text \<open>The first line that does not parse, after a run of lines that do.\<close>

lemma process_lines_one_bad:
  assumes nonblank: "\<forall>l\<in>set (pre @ bad # post). trim l \<noteq> []"
    and good: "\<forall>l\<in>set pre. success (parseSingleAttendanceRecord env (trim l) None options)"
    and bad: "\<not> success (parseSingleAttendanceRecord env (trim bad) None options)"
  shows "\<exists>e recs ws1. e \<noteq> [] \<and>
           error (parseSingleAttendanceRecord env (trim bad) None options) = Some e \<and>
           length recs = length pre \<and>
           process_lines env options 0 (pre @ bad # post) [] [] =
             (if strictMode options then
                \<lparr>success = False, data = None,
                 error = Some (''Line '' @ show_nat (length pre + 1) @ '': '' @ e), warnings = None\<rparr>
              else process_lines env options (length pre + 1) post recs
                     (ws1 @ [''Line '' @ show_nat (length pre + 1) @ '': '' @ e]))"
proof -
  from bad have "\<not> success (parseSingleAttendanceRecord env (trim bad) (Some (length pre + 1)) options)"
    using parseSingle_lineNumber [of env "trim bad" None options "Some (length pre + 1)"] by simp
  with parseSingle_outcome [of env "trim bad" "Some (length pre + 1)" options]
  obtain e where e: "e \<noteq> []"
    and res: "parseSingleAttendanceRecord env (trim bad) (Some (length pre + 1)) options =
          \<lparr>success = False, data = None, error = Some e, warnings = None\<rparr>"
    by auto
  have err: "error (parseSingleAttendanceRecord env (trim bad) None options) = Some e"
    using res parseSingle_lineNumber [of env "trim bad" None options "Some (length pre + 1)"]
    by simp
  from nonblank good
  have "\<forall>l\<in>set pre. trim l \<noteq> [] \<and> success (parseSingleAttendanceRecord env (trim l) None options)"
    by simp
  from process_lines_good_prefix [OF this, of 0 "[]" "[]"]
  obtain recs ws1 where len: "length recs = length pre"
    and run: "\<And>rest. process_lines env options 0 (pre @ rest) [] [] =
                process_lines env options (length pre) rest recs ws1"
    by auto
  from nonblank have nb: "trim bad \<noteq> []"
    by simp
  show ?thesis
    using e err len run [of "bad # post"] process_lines_bad_step [OF nb e res, of post recs ws1]
    by auto
qed

text \<open>
  C2 (as amended).  The entry check refuses exactly the values that are no string and
  the empty string, with the message \<^verbatim>\<open>Invalid or empty attendance data\<close>; it
  does not trim.  In lenient mode nothing else makes the batch fail.  A body that is
  not empty and all of whose lines are blank succeeds with no records and no
  warnings.
\<close>

theorem batch_entry_check:
  "(\<not> strictMode options \<longrightarrow>
      (success (parseAttendanceLog env input options) \<longleftrightarrow> input \<noteq> None \<and> input \<noteq> Some [])) \<and>
   (input = None \<or> input = Some [] \<longrightarrow>
      parseAttendanceLog env input options =
        \<lparr>success = False, data = None,
         error = Some ''Invalid or empty attendance data'', warnings = None\<rparr>) \<and>
   (body \<noteq> [] \<and> (\<forall>l\<in>set (split_on LF body). list_all is_ws l) \<longrightarrow>
      parseAttendanceLog env (Some body) options =
        \<lparr>success = True, data = Some [], error = None, warnings = None\<rparr>)"
proof (intro conjI impI)
  assume "\<not> strictMode options"
  then show "success (parseAttendanceLog env input options) \<longleftrightarrow> input \<noteq> None \<and> input \<noteq> Some []"
    using process_lines_lenient [of options env 0 _ "[]" "[]"]
    by (auto simp: parseAttendanceLog_def truthy_def split: option.splits)
next
  assume "input = None \<or> input = Some []"
  then show "parseAttendanceLog env input options =
        \<lparr>success = False, data = None,
         error = Some ''Invalid or empty attendance data'', warnings = None\<rparr>"
    by (auto simp: parseAttendanceLog_def truthy_def)
next
  assume a: "body \<noteq> [] \<and> (\<forall>l\<in>set (split_on LF body). list_all is_ws l)"
  then have "trim body = []"
    using blank_lines_all_ws trim_all_ws by blast
  then have "body_lines body = []"
    by (simp add: body_lines_def trim_Nil)
  with a show "parseAttendanceLog env (Some body) options =
        \<lparr>success = True, data = Some [], error = None, warnings = None\<rparr>"
    by (simp add: parseAttendanceLog_def truthy_def)
qed

theorem batch_entry_check_witness:
  "success (parseAttendanceLog utc_process (Some (''invalid'' @ TAB # ''data'')) default_options) \<and>
   parseAttendanceLog utc_process (Some []) default_options =
     \<lparr>success = False, data = None,
      error = Some ''Invalid or empty attendance data'', warnings = None\<rparr> \<and>
   parseAttendanceLog utc_process (Some ('' '' @ LF # ''  '')) default_options =
     \<lparr>success = True, data = Some [], error = None, warnings = None\<rparr>"
proof -
  have l: "\<not> strictMode default_options"
    by (simp add: default_options_def)
  have b: "'' '' @ LF # ''  '' \<noteq> [] \<and> (\<forall>l\<in>set (split_on LF ('' '' @ LF # ''  '')). list_all is_ws l)"
    by (simp add: is_ws_def)
  from batch_entry_check [of default_options utc_process "Some (''invalid'' @ TAB # ''data'')" "'' '' @ LF # ''  ''"]
    batch_entry_check [of default_options utc_process "Some []" "'' '' @ LF # ''  ''"]
    l b
  show ?thesis
    by simp
qed

text \<open>
  The claim as stated fails on a body of one space: it is empty after trimming, and
  the batch succeeds.
\<close>

theorem whitespace_body_counterexample:
  "trim '' '' = [] \<and>
   parseAttendanceLog utc_process (Some '' '') default_options =
     \<lparr>success = True, data = Some [], error = None, warnings = None\<rparr>"
  by code_simp

text \<open>
  What the loop does in lenient mode: where exactly one of the non-blank lines of the
  trimmed body does not parse and the others do, the batch succeeds with one record
  for each of the others and a warning made of \<^verbatim>\<open>Line k: \<close> and the line's
  error, \<open>k\<close> being the position of the line among the non-blank lines, since
  blank lines are dropped before the loop numbers the lines.  So the record count and
  the presence of the warning are as intended, and \<open>k\<close> is the line's number in
  the body only where no blank line comes before it.
\<close>

lemma lenient_batch_one_bad_line:
  assumes lenient: "\<not> strictMode options"
    and lines: "body_lines body = pre @ bad # post"
    and good: "\<forall>l\<in>set (pre @ post). success (parseSingleAttendanceRecord env (trim l) None options)"
    and bad: "\<not> success (parseSingleAttendanceRecord env (trim bad) None options)"
  shows "\<exists>e recs ws.
           error (parseSingleAttendanceRecord env (trim bad) None options) = Some e \<and>
           parseAttendanceLog env (Some body) options =
             \<lparr>success = True, data = Some recs, error = None, warnings = Some ws\<rparr> \<and>
           length recs = length pre + length post \<and>
           (''Line '' @ show_nat (length pre + 1) @ '': '' @ e) \<in> set ws"
proof -
  have nonblank: "\<forall>l\<in>set (pre @ bad # post). trim l \<noteq> []"
    using lines body_lines_nonblank [of _ body] by auto
  have nonempty: "body \<noteq> []"
    using lines by (auto simp: body_lines_def trim_Nil)
  from good have gpre: "\<forall>l\<in>set pre. success (parseSingleAttendanceRecord env (trim l) None options)"
    by simp
  from process_lines_one_bad [OF nonblank gpre bad] lenient
  obtain e recs ws1 where
    err: "error (parseSingleAttendanceRecord env (trim bad) None options) = Some e"
    and len: "length recs = length pre"
    and run: "process_lines env options 0 (pre @ bad # post) [] [] =
                process_lines env options (length pre + 1) post recs
                  (ws1 @ [''Line '' @ show_nat (length pre + 1) @ '': '' @ e])"
    by auto
  from nonblank good
  have "\<forall>l\<in>set post. trim l \<noteq> [] \<and> success (parseSingleAttendanceRecord env (trim l) None options)"
    by simp
  from process_lines_good_prefix [OF this, of "length pre + 1" recs
      "ws1 @ [''Line '' @ show_nat (length pre + 1) @ '': '' @ e]"]
  obtain recs2 ws2 where len2: "length recs2 = length post"
    and run2: "process_lines env options (length pre + 1) (post @ []) recs
                  (ws1 @ [''Line '' @ show_nat (length pre + 1) @ '': '' @ e]) =
               process_lines env options (length pre + 1 + length post) [] (recs @ recs2)
                  ((ws1 @ [''Line '' @ show_nat (length pre + 1) @ '': '' @ e]) @ ws2)"
    by blast
  have "parseAttendanceLog env (Some body) options =
          \<lparr>success = True, data = Some (recs @ recs2), error = None,
           warnings = Some ((ws1 @ [''Line '' @ show_nat (length pre + 1) @ '': '' @ e]) @ ws2)\<rparr>"
    using nonempty lines run run2 by (simp add: parseAttendanceLog_def truthy_def)
  with err len len2 show ?thesis
    by auto
qed

lemma lenient_batch_one_bad_line_example:
  "\<exists>recs ws.
     parseAttendanceLog utc_process (Some (readme_line @ LF # ''bad'' @ LF # readme_line))
         default_options =
       \<lparr>success = True, data = Some recs, error = None, warnings = Some ws\<rparr> \<and>
     length recs = 2 \<and>
     ''Line 2: Insufficient fields (1/4 minimum required)'' \<in> set ws"
proof -
  let ?body = "readme_line @ LF # ''bad'' @ LF # readme_line"
  have lenient: "\<not> strictMode default_options"
    by (simp add: default_options_def)
  have lines: "body_lines ?body = [readme_line] @ ''bad'' # [readme_line]"
    by code_simp
  have g: "success (parseSingleAttendanceRecord utc_process (trim readme_line) None default_options)"
    by code_simp
  then have good: "\<forall>l\<in>set ([readme_line] @ [readme_line]).
      success (parseSingleAttendanceRecord utc_process (trim l) None default_options)"
    by simp
  have bad: "\<not> success (parseSingleAttendanceRecord utc_process (trim ''bad'') None default_options)"
    by code_simp
  have e: "error (parseSingleAttendanceRecord utc_process (trim ''bad'') None default_options) =
             Some ''Insufficient fields (1/4 minimum required)''"
    by code_simp
  have n: "show_nat (length [readme_line] + 1) = ''2''"
    by code_simp
  from lenient_batch_one_bad_line [OF lenient lines good bad]
  show ?thesis
    unfolding e n by auto
qed

text \<open>
  C3.  The warning does not carry the malformed line's number in the body where a
  blank line comes before it.  In the body made of the README line, an empty line and
  the line \<^verbatim>\<open>bad\<close>, parsed in lenient mode, the malformed line is the third
  line; the batch succeeds with the one record, and its only warning is prefixed
  \<^verbatim>\<open>Line 2\<close>.  The loop computes \<^verbatim>\<open>lineNumber = i + 1\<close> and skips blank
  lines after that, but the lines were filtered before the loop, so the skip never
  runs and the index counts non-blank lines only.
\<close>

theorem lenient_warning_miscounts_after_blank_line:
  "split_on LF (readme_line @ [LF, LF] @ ''bad'') = [readme_line, [], ''bad''] \<and>
   success (parseAttendanceLog utc_process (Some (readme_line @ [LF, LF] @ ''bad'')) default_options) \<and>
   map_option length
     (data (parseAttendanceLog utc_process (Some (readme_line @ [LF, LF] @ ''bad'')) default_options)) =
     Some 1 \<and>
   warnings (parseAttendanceLog utc_process (Some (readme_line @ [LF, LF] @ ''bad'')) default_options) =
     Some [''Line 2: Insufficient fields (1/4 minimum required)'']"
  by code_simp

text \<open>
  What the loop does in strict mode: at the first non-blank line that does not parse
  the batch fails with \<^verbatim>\<open>Line k: \<close> and the line's error, \<open>k\<close> being the
  position of the line among the non-blank lines of the trimmed body.  Whatever
  follows that line has no part in the result.  So the abort and the prefix are as
  intended, and \<open>k\<close> is the line's number in the body only where no blank line
  comes before it.
\<close>

lemma strict_batch_stops_at_first_bad_line:
  assumes strict: "strictMode options"
    and lines: "body_lines body = pre @ bad # post"
    and good: "\<forall>l\<in>set pre. success (parseSingleAttendanceRecord env (trim l) None options)"
    and bad: "\<not> success (parseSingleAttendanceRecord env (trim bad) None options)"
  shows "\<exists>e. error (parseSingleAttendanceRecord env (trim bad) None options) = Some e \<and>
           parseAttendanceLog env (Some body) options =
             \<lparr>success = False, data = None,
              error = Some (''Line '' @ show_nat (length pre + 1) @ '': '' @ e),
              warnings = None\<rparr>"
proof -
  have nonblank: "\<forall>l\<in>set (pre @ bad # post). trim l \<noteq> []"
    using lines body_lines_nonblank [of _ body] by auto
  have nonempty: "body \<noteq> []"
    using lines by (auto simp: body_lines_def trim_Nil)
  from process_lines_one_bad [OF nonblank good bad] strict
  obtain e where
    err: "error (parseSingleAttendanceRecord env (trim bad) None options) = Some e"
    and run: "process_lines env options 0 (pre @ bad # post) [] [] =
                \<lparr>success = False, data = None,
                 error = Some (''Line '' @ show_nat (length pre + 1) @ '': '' @ e), warnings = None\<rparr>"
    by auto
  have "parseAttendanceLog env (Some body) options =
          \<lparr>success = False, data = None,
           error = Some (''Line '' @ show_nat (length pre + 1) @ '': '' @ e), warnings = None\<rparr>"
    using nonempty lines run by (simp add: parseAttendanceLog_def truthy_def)
  with err show ?thesis
    by blast
qed

lemma strict_batch_stops_at_first_bad_line_example:
  "parseAttendanceLog utc_process (Some (readme_line @ LF # ''bad'' @ LF # ''worse''))
       strict_options =
     \<lparr>success = False, data = None,
      error = Some ''Line 2: Insufficient fields (1/4 minimum required)'', warnings = None\<rparr>"
proof -
  let ?body = "readme_line @ LF # ''bad'' @ LF # ''worse''"
  have strict: "strictMode strict_options"
    by (simp add: strict_options_def)
  have lines: "body_lines ?body = [readme_line] @ ''bad'' # [''worse'']"
    by code_simp
  have g: "success (parseSingleAttendanceRecord utc_process (trim readme_line) None strict_options)"
    by code_simp
  then have good: "\<forall>l\<in>set [readme_line].
      success (parseSingleAttendanceRecord utc_process (trim l) None strict_options)"
    by simp
  have bad: "\<not> success (parseSingleAttendanceRecord utc_process (trim ''bad'') None strict_options)"
    by code_simp
  have e: "error (parseSingleAttendanceRecord utc_process (trim ''bad'') None strict_options) =
             Some ''Insufficient fields (1/4 minimum required)''"
    by code_simp
  have n: "show_nat (length [readme_line] + 1) = ''2''"
    by code_simp
  from strict_batch_stops_at_first_bad_line [OF strict lines good bad]
  show ?thesis
    unfolding e n by auto
qed

text \<open>
  C4.  The error does not carry the failing line's number in the body where a blank
  line comes before it.  In the body made of the README line, a line of one space, the
  line \<^verbatim>\<open>bad\<close> and the README line again, parsed in strict mode, the
  malformed line is the third line, and the batch fails with an error prefixed
  \<^verbatim>\<open>Line 2\<close>: the lines were filtered before the loop that numbers them.
\<close>

theorem strict_error_miscounts_after_blank_line:
  "split_on LF (readme_line @ LF # '' '' @ LF # ''bad'' @ LF # readme_line) =
     [readme_line, '' '', ''bad'', readme_line] \<and>
   parseAttendanceLog utc_process
       (Some (readme_line @ LF # '' '' @ LF # ''bad'' @ LF # readme_line)) strict_options =
     \<lparr>success = False, data = None,
      error = Some ''Line 2: Insufficient fields (1/4 minimum required)'', warnings = None\<rparr>"
  by code_simp

section \<open>Device information\<close>



end
